theory Spec2Isabelle
  imports Main "HOL-Library.Multiset" "HOL-Library.Product_Lexorder"
begin

section \<open>Data model\<close>

text \<open>
  \<^verbatim>\<open>find_peptide_positions\<close> returns a list of dictionaries with the keys
  \<^verbatim>\<open>'start'\<close>, \<^verbatim>\<open>'end'\<close>, \<^verbatim>\<open>'mutations'\<close> and \<^verbatim>\<open>'sequence'\<close>. The key
  \<^verbatim>\<open>'end'\<close> is the field \<open>endp\<close> here, \<open>end\<close> being reserved in Isabelle.
  Positions and counts are Python integers, hence \<open>int\<close>. The parameter
  \<^verbatim>\<open>peptide\<close> of the source's functions is written \<open>pep\<close>, the name
  \<open>peptide\<close> being the field of a match.
\<close>

record position =
  start :: int
  endp :: int
  mutations :: int
  sequence :: string

text \<open>
  \<^verbatim>\<open>main\<close> adds the key \<^verbatim>\<open>'peptide'\<close> to each dictionary
  (\<^verbatim>\<open>{'peptide': peptide, **match}\<close>).
\<close>

record match = position +
  peptide :: string

text \<open>The two lists that the row assignment of \<^verbatim>\<open>create_plot\<close> mutates.\<close>

record pack_state =
  rows :: "match list list"
  row_end_positions :: "int list"

text \<open>
  The only exception the modelled code can raise: \<^verbatim>\<open>min\<close> over an empty
  \<^verbatim>\<open>range\<close> raises \<^verbatim>\<open>ValueError\<close>.
\<close>

datatype error = ValueError

section \<open>Matching: \<^verbatim>\<open>count_mutations\<close> and \<^verbatim>\<open>find_peptide_positions\<close>\<close>

text \<open>
  \<^verbatim>\<open>return sum(a != b for a, b in zip(seq1, seq2))\<close>: \<^verbatim>\<open>zip\<close> stops at the
  shorter sequence, a boolean counts as 0 or 1.
\<close>

definition count_mutations :: "string \<Rightarrow> string \<Rightarrow> int" where
  "count_mutations seq1 seq2 =
     sum_list (map (\<lambda>(a, b). if a \<noteq> b then 1 else 0) (zip seq1 seq2))"

text \<open>
  The \<^verbatim>\<open>for i in range(...)\<close> loop of \<^verbatim>\<open>find_peptide_positions\<close>, over the
  offsets still to visit, with the list \<^verbatim>\<open>positions\<close> built so far. The slice
  \<^verbatim>\<open>protein_seq[i:i+peptide_len]\<close> with \<open>0 \<le> i\<close> is \<open>take peptide_len (drop i protein_seq)\<close>.
\<close>

fun find_loop :: "string \<Rightarrow> string \<Rightarrow> int \<Rightarrow> nat list \<Rightarrow> position list \<Rightarrow> position list" where
  "find_loop pep protein_seq mutations_allowed [] positions = positions"
| "find_loop pep protein_seq mutations_allowed (i # js) positions =
     (let peptide_len = length pep;
          substring = take peptide_len (drop i protein_seq);
          mutations = count_mutations pep substring
      in find_loop pep protein_seq mutations_allowed js
           (if mutations \<le> mutations_allowed
            then positions @ [\<lparr>start = int i + 1, endp = int i + int peptide_len,
                               mutations = mutations, sequence = substring\<rparr>]
            else positions))"

definition find_peptide_positions :: "string \<Rightarrow> string \<Rightarrow> int \<Rightarrow> position list" where
  "find_peptide_positions pep protein_seq mutations_allowed =
     (let peptide_len = length pep
      in if peptide_len > length protein_seq then []
         else find_loop pep protein_seq mutations_allowed
                [0 ..< length protein_seq - peptide_len + 1] [])"

section \<open>Aggregation: the per-protein body of \<^verbatim>\<open>main\<close>\<close>

definition tag_match :: "string \<Rightarrow> position \<Rightarrow> match" where
  "tag_match pep m =
     \<lparr>start = start m, endp = endp m, mutations = mutations m, sequence = sequence m,
      peptide = pep\<rparr>"

text \<open>
  The loop \<^verbatim>\<open>for peptide in peptides\<close>; its inner loop appends every match of
  the peptide, tagged, to \<^verbatim>\<open>all_matches\<close>.
\<close>

fun collect_matches :: "string list \<Rightarrow> string \<Rightarrow> int \<Rightarrow> match list \<Rightarrow> match list" where
  "collect_matches [] protein_seq mutations_allowed acc = acc"
| "collect_matches (pep # peps) protein_seq mutations_allowed acc =
     collect_matches peps protein_seq mutations_allowed
       (acc @ map (tag_match pep) (find_peptide_positions pep protein_seq mutations_allowed))"

text \<open>
  \<^verbatim>\<open>all_matches.sort(key=lambda x: x['start'])\<close>. Python's sort is stable, and so
  is \<open>sort_key\<close>; a stable sort has one possible result.
\<close>

definition all_matches :: "string list \<Rightarrow> string \<Rightarrow> int \<Rightarrow> match list" where
  "all_matches peptides protein_seq mutations_allowed =
     sort_key start (collect_matches peptides protein_seq mutations_allowed [])"

section \<open>Row assignment: \<^verbatim>\<open>create_plot\<close>, lines 113 to 143\<close>

text \<open>
  \<^verbatim>\<open>sorted(peptide_matches, key=lambda x: (x['start'], x['end'] - x['start']))\<close>:
  Python compares the key tuples lexicographically, which is the order of
  \<open>int \<times> int\<close> here.
\<close>

definition sorted_matches :: "match list \<Rightarrow> match list" where
  "sorted_matches peptide_matches =
     sort_key (\<lambda>x. (start x, endp x - start x)) peptide_matches"

text \<open>
  The inner loop \<^verbatim>\<open>for row_idx in range(max_rows)\<close> with its \<^verbatim>\<open>break\<close>: the
  first row index whose end position leaves the gap, or \<open>None\<close> when the loop
  ends with \<^verbatim>\<open>assigned\<close> still false. The source writes the gap as the literal
  10; it is the parameter \<open>min_gap\<close> here, and \<^verbatim>\<open>max_rows\<close>, a local variable
  set to 2 in the source, is a parameter too. \<open>create_plot_rows\<close> below fixes both
  as the source does.
\<close>

fun first_fit :: "int \<Rightarrow> int \<Rightarrow> int list \<Rightarrow> nat list \<Rightarrow> nat option" where
  "first_fit min_gap start_pos ends [] = None"
| "first_fit min_gap start_pos ends (row_idx # rest) =
     (if start_pos > ends ! row_idx + min_gap then Some row_idx
      else first_fit min_gap start_pos ends rest)"

text \<open>
  \<^verbatim>\<open>min(iterable, key=...)\<close>: the first element with the least key, and
  \<^verbatim>\<open>ValueError\<close> (\<open>None\<close> here) on an empty iterable.
\<close>

fun py_min :: "(nat \<Rightarrow> int) \<Rightarrow> nat list \<Rightarrow> nat option" where
  "py_min key [] = None"
| "py_min key (x # xs) =
     Some (foldl (\<lambda>best i. if key i < key best then i else best) x xs)"

text \<open>
  The body of \<^verbatim>\<open>for match in sorted_matches\<close>. Both lists have \<open>max_rows\<close>
  entries throughout (lemma \<open>assign_match_lengths\<close>) and every index comes from
  \<^verbatim>\<open>range(max_rows)\<close>, so no read or update is out of range.
\<close>

definition assign_match :: "int \<Rightarrow> int \<Rightarrow> pack_state \<Rightarrow> match \<Rightarrow> error + pack_state" where
  "assign_match max_rows min_gap st m =
     (let start_pos = start m - 1;
          end_pos = endp m - 1
      in case first_fit min_gap start_pos (row_end_positions st) [0 ..< nat max_rows] of
           Some row_idx \<Rightarrow>
             Inr \<lparr>rows = (rows st)[row_idx := rows st ! row_idx @ [m]],
                  row_end_positions = (row_end_positions st)[row_idx := end_pos]\<rparr>
         | None \<Rightarrow>
             (case py_min (\<lambda>i. row_end_positions st ! i) [0 ..< nat max_rows] of
                None \<Rightarrow> Inl ValueError
              | Some best_row \<Rightarrow>
                  Inr \<lparr>rows = (rows st)[best_row := rows st ! best_row @ [m]],
                       row_end_positions = (row_end_positions st)
                         [best_row := max (row_end_positions st ! best_row) end_pos]\<rparr>))"

fun assign_loop :: "int \<Rightarrow> int \<Rightarrow> pack_state \<Rightarrow> match list \<Rightarrow> error + pack_state" where
  "assign_loop max_rows min_gap st [] = Inr st"
| "assign_loop max_rows min_gap st (m # ms) =
     (case assign_match max_rows min_gap st m of
        Inl e \<Rightarrow> Inl e
      | Inr st' \<Rightarrow> assign_loop max_rows min_gap st' ms)"

text \<open>
  \<^verbatim>\<open>rows = [[] for _ in range(max_rows)]\<close> and
  \<^verbatim>\<open>row_end_positions = [0] * max_rows\<close>, then the loop. Both are empty for
  \<open>max_rows \<le> 0\<close>. The comprehension makes one list for each row, so appending to
  a row changes no other row, as the list update here does.
\<close>

definition assign_rows :: "int \<Rightarrow> int \<Rightarrow> match list \<Rightarrow> error + pack_state" where
  "assign_rows max_rows min_gap ms =
     assign_loop max_rows min_gap
       \<lparr>rows = replicate (nat max_rows) [], row_end_positions = replicate (nat max_rows) 0\<rparr> ms"

definition create_plot_rows :: "match list \<Rightarrow> error + pack_state" where
  "create_plot_rows peptide_matches = assign_rows 2 10 (sorted_matches peptide_matches)"

text \<open>
  One protein in \<^verbatim>\<open>main\<close>: \<^verbatim>\<open>create_plot\<close> is called only
  \<^verbatim>\<open>if all_matches:\<close>, that is when the list is not empty.
\<close>

definition process_protein :: "string list \<Rightarrow> string \<Rightarrow> int \<Rightarrow> error + pack_state option" where
  "process_protein peptides protein_seq mutations_allowed =
     (let ms = all_matches peptides protein_seq mutations_allowed
      in if ms = [] then Inr None
         else (case create_plot_rows ms of Inl e \<Rightarrow> Inl e | Inr st \<Rightarrow> Inr (Some st)))"

section \<open>Notions used in the statements\<close>

text \<open>
  The slice the loop of \<^verbatim>\<open>find_peptide_positions\<close> reads at offset \<open>i\<close>, and the
  dictionary it appends there.
\<close>

definition window :: "string \<Rightarrow> string \<Rightarrow> nat \<Rightarrow> string" where
  "window pep protein_seq i = take (length pep) (drop i protein_seq)"

definition occurrence_at :: "string \<Rightarrow> string \<Rightarrow> nat \<Rightarrow> position" where
  "occurrence_at pep protein_seq i =
     \<lparr>start = int i + 1, endp = int i + int (length pep),
      mutations = count_mutations pep (window pep protein_seq i),
      sequence = window pep protein_seq i\<rparr>"

text \<open>
  The Hamming distance as the specification words it: the number of positions at
  which the two sequences differ. It is read on sequences of equal length.
\<close>

definition hamming :: "string \<Rightarrow> string \<Rightarrow> int" where
  "hamming a b = int (length (filter (\<lambda>i. a ! i \<noteq> b ! i) [0 ..< length a]))"

text \<open>The state after \<open>m\<close> is appended to row \<open>r\<close> and the row's end is set to \<open>e\<close>.\<close>

definition placed :: "pack_state \<Rightarrow> nat \<Rightarrow> match \<Rightarrow> int \<Rightarrow> pack_state" where
  "placed st r m e =
     \<lparr>rows = (rows st)[r := rows st ! r @ [m]],
      row_end_positions = (row_end_positions st)[r := e]\<rparr>"

section \<open>Counting mutations\<close>

lemma count_mutations_Nil [simp]: "count_mutations [] b = 0" "count_mutations a [] = 0"
  by (simp_all add: count_mutations_def)

lemma count_mutations_Cons [simp]:
  "count_mutations (x # a) (y # b) = (if x \<noteq> y then 1 else 0) + count_mutations a b"
  by (simp add: count_mutations_def)

lemma count_mutations_nonneg: "0 \<le> count_mutations a b"
proof (induction a arbitrary: b)
  case Nil
  show ?case by simp
next
  case (Cons x a)
  show ?case
  proof (cases b)
    case Nil
    then show ?thesis by simp
  next
    case (Cons y b')
    with Cons.IH [of b'] show ?thesis by simp
  qed
qed

lemma count_mutations_le_zero_iff:
  "length a = length b \<Longrightarrow> count_mutations a b \<le> 0 \<longleftrightarrow> a = b"
proof (induction a b rule: list_induct2)
  case Nil
  show ?case by simp
next
  case (Cons x a y b)
  from count_mutations_nonneg [of a b] Cons.IH show ?case by auto
qed

lemma hamming_Cons: "hamming (x # a) (y # b) = (if x \<noteq> y then 1 else 0) + hamming a b"
proof -
  have "[0 ..< length (x # a)] = 0 # map Suc [0 ..< length a]"
    by (simp add: upt_conv_Cons map_Suc_upt del: upt_Suc)
  then show ?thesis
    by (simp add: hamming_def filter_map comp_def del: upt_Suc)
qed

lemma count_mutations_hamming:
  "length a = length b \<Longrightarrow> count_mutations a b = hamming a b"
proof (induction a b rule: list_induct2)
  case Nil
  show ?case by (simp add: hamming_def)
next
  case (Cons x a y b)
  then show ?case by (simp add: hamming_Cons)
qed

section \<open>The scan of \<^verbatim>\<open>find_peptide_positions\<close>\<close>

lemma find_loop_eq:
  "find_loop pep P b js acc =
     acc @ map (occurrence_at pep P)
             (filter (\<lambda>i. count_mutations pep (window pep P i) \<le> b) js)"
  by (induction js arbitrary: acc) (simp_all add: Let_def occurrence_at_def window_def)

lemma find_peptide_positions_eq:
  "find_peptide_positions pep P b =
     (if length P < length pep then []
      else map (occurrence_at pep P)
             (filter (\<lambda>i. count_mutations pep (window pep P i) \<le> b)
                [0 ..< length P - length pep + 1]))"
  by (simp add: find_peptide_positions_def Let_def find_loop_eq del: upt_Suc)

lemma length_window: "i + length pep \<le> length P \<Longrightarrow> length (window pep P i) = length pep"
  by (simp add: window_def)

lemma mem_find_peptide_positions:
  "m \<in> set (find_peptide_positions pep P b) \<longleftrightarrow>
     (\<exists>i. i + length pep \<le> length P \<and> count_mutations pep (window pep P i) \<le> b \<and>
          m = occurrence_at pep P i)"
proof (cases "length P < length pep")
  case True
  then show ?thesis by (auto simp: find_peptide_positions_eq)
next
  case False
  then have "\<And>i. i < length P - length pep + 1 \<longleftrightarrow> i + length pep \<le> length P"
    by arith
  with False show ?thesis
    by (auto simp: find_peptide_positions_eq simp del: upt_Suc)
qed

text \<open>
  A slice that equals a non-empty peptide lies inside the protein: for such a peptide
  the condition that the slice is in range follows from the equality of the slice.
\<close>

lemma slice_eq_in_range:
  assumes "pep \<noteq> []" and "1 \<le> s" and "take (length pep) (drop (nat (s - 1)) P) = pep"
  shows "s - 1 + int (length pep) \<le> int (length P)"
proof -
  from assms(3) have "length (take (length pep) (drop (nat (s - 1)) P)) = length pep"
    by simp
  then have "length pep \<le> length P - nat (s - 1)"
    by simp
  moreover from assms(1) have "0 < length pep"
    by simp
  ultimately have "nat (s - 1) + length pep \<le> length P"
    by arith
  with assms(2) show ?thesis
    by arith
qed

lemma negative_budget_no_match:
  assumes "b < 0"
  shows "find_peptide_positions pep P b = []"
proof -
  have "\<And>i. \<not> count_mutations pep (window pep P i) \<le> b"
    using assms count_mutations_nonneg [of pep] by (simp add: not_le order_less_le_trans)
  then show ?thesis
    by (simp add: find_peptide_positions_eq del: upt_Suc)
qed

lemma collect_matches_eq:
  "collect_matches peps P b acc =
     acc @ concat (map (\<lambda>pep. map (tag_match pep) (find_peptide_positions pep P b)) peps)"
  by (induction peps arbitrary: acc) simp_all

section \<open>Claims about matching\<close>

text \<open>
  C1. With a budget of zero, the start positions returned for a peptide \<open>pep\<close> and a
  protein \<open>P\<close> are exactly the 1-based positions \<open>s\<close> at which \<open>pep\<close> occurs in
  \<open>P\<close>: the slice of length \<open>length pep\<close> that starts at \<open>s\<close> lies inside \<open>P\<close> and
  equals \<open>pep\<close>. No position is missing and none is added.
\<close>

theorem find_peptide_positions_exact:
  "start ` set (find_peptide_positions pep P 0) =
     {s. 1 \<le> s \<and> s - 1 + int (length pep) \<le> int (length P) \<and>
         take (length pep) (drop (nat (s - 1)) P) = pep}"
proof (rule set_eqI)
  fix s :: int
  show "s \<in> start ` set (find_peptide_positions pep P 0) \<longleftrightarrow>
        s \<in> {s. 1 \<le> s \<and> s - 1 + int (length pep) \<le> int (length P) \<and>
                 take (length pep) (drop (nat (s - 1)) P) = pep}"
  proof
    assume "s \<in> start ` set (find_peptide_positions pep P 0)"
    then obtain i where i: "i + length pep \<le> length P"
        and c: "count_mutations pep (window pep P i) \<le> 0"
        and s: "s = start (occurrence_at pep P i)"
      by (auto simp: mem_find_peptide_positions)
    from i have "length pep = length (window pep P i)"
      by (simp add: length_window)
    with c have "window pep P i = pep"
      by (simp add: count_mutations_le_zero_iff)
    with i s show "s \<in> {s. 1 \<le> s \<and> s - 1 + int (length pep) \<le> int (length P) \<and>
                 take (length pep) (drop (nat (s - 1)) P) = pep}"
      by (simp add: occurrence_at_def window_def)
  next
    assume "s \<in> {s. 1 \<le> s \<and> s - 1 + int (length pep) \<le> int (length P) \<and>
                 take (length pep) (drop (nat (s - 1)) P) = pep}"
    then have s1: "1 \<le> s" and s2: "s - 1 + int (length pep) \<le> int (length P)"
        and w: "window pep P (nat (s - 1)) = pep"
      by (simp_all add: window_def)
    from s1 s2 have i: "nat (s - 1) + length pep \<le> length P" by arith
    from w have "count_mutations pep (window pep P (nat (s - 1))) \<le> 0"
      by (simp add: count_mutations_le_zero_iff)
    with i have "occurrence_at pep P (nat (s - 1)) \<in> set (find_peptide_positions pep P 0)"
      unfolding mem_find_peptide_positions by blast
    moreover from s1 have "start (occurrence_at pep P (nat (s - 1))) = s"
      by (simp add: occurrence_at_def)
    ultimately show "s \<in> start ` set (find_peptide_positions pep P 0)"
      by (metis imageI)
  qed
qed

text \<open>
  C2. Every occurrence returned for a budget \<open>b\<close> carries the slice of the protein at
  its start as its sequence, of the peptide's length; its mutation count is the
  Hamming distance between the peptide and that sequence, and is at most \<open>b\<close>.
\<close>

theorem mismatch_correct:
  assumes "m \<in> set (find_peptide_positions pep P b)"
  shows "sequence m = take (length pep) (drop (nat (start m - 1)) P) \<and>
         length (sequence m) = length pep \<and>
         mutations m = hamming pep (sequence m) \<and> mutations m \<le> b"
proof -
  from assms obtain i where i: "i + length pep \<le> length P"
      and c: "count_mutations pep (window pep P i) \<le> b"
      and m: "m = occurrence_at pep P i"
    by (auto simp: mem_find_peptide_positions)
  from i have len: "length (window pep P i) = length pep"
    by (simp add: length_window)
  then have "count_mutations pep (window pep P i) = hamming pep (window pep P i)"
    by (simp add: count_mutations_hamming)
  moreover from len have "length (take (length pep) (drop i P)) = length pep"
    by (simp only: window_def)
  ultimately show ?thesis
    using c m by (simp add: occurrence_at_def window_def)
qed

theorem mismatch_correct_witness:
  "\<lparr>start = 2, endp = 4, mutations = 1, sequence = ''KVL''\<rparr>
      \<in> set (find_peptide_positions ''KVI'' ''MKVLATG'' 1) \<and>
   hamming ''KVI'' ''KVL'' = 1 \<and> (1::int) \<le> 1"
proof -
  have h: "\<lparr>start = 2, endp = 4, mutations = 1, sequence = ''KVL''\<rparr>
             \<in> set (find_peptide_positions ''KVI'' ''MKVLATG'' 1)"
    by code_simp
  from mismatch_correct [OF h] h show ?thesis by simp
qed

text \<open>
  C6. Raising the budget by one loses no start position: the start positions found
  with budget \<open>b\<close> are among those found with budget \<open>b + 1\<close>, for every integer \<open>b\<close>.
\<close>

theorem budget_monotone:
  "start ` set (find_peptide_positions pep P b) \<subseteq>
     start ` set (find_peptide_positions pep P (b + 1))"
proof -
  have "set (find_peptide_positions pep P b) \<subseteq> set (find_peptide_positions pep P (b + 1))"
  proof
    fix m
    assume "m \<in> set (find_peptide_positions pep P b)"
    then obtain i where "i + length pep \<le> length P"
        and "count_mutations pep (window pep P i) \<le> b"
        and "m = occurrence_at pep P i"
      by (auto simp: mem_find_peptide_positions)
    then have "i + length pep \<le> length P \<and> count_mutations pep (window pep P i) \<le> b + 1 \<and>
               m = occurrence_at pep P i"
      by simp
    then show "m \<in> set (find_peptide_positions pep P (b + 1))"
      unfolding mem_find_peptide_positions by (rule exI)
  qed
  then show ?thesis by (rule image_mono)
qed

text \<open>
  C7, as the code has it. Every occurrence satisfies \<open>1 \<le> start\<close>,
  \<open>end \<le> length protein\<close> and \<open>end - start + 1 = length peptide\<close>; \<open>start \<le> end\<close>
  holds when the peptide is not empty. For the empty peptide every occurrence has
  \<open>end = start - 1\<close>, which the counterexample shows on the protein \<open>A\<close>.
\<close>

theorem position_bounds:
  assumes "m \<in> set (find_peptide_positions pep P b)"
  shows "1 \<le> start m \<and> endp m \<le> int (length P) \<and>
         endp m - start m + 1 = int (length pep) \<and>
         (pep \<noteq> [] \<longrightarrow> start m \<le> endp m)"
proof -
  from assms obtain i where i: "i + length pep \<le> length P"
      and m: "m = occurrence_at pep P i"
    by (auto simp: mem_find_peptide_positions)
  have "pep \<noteq> [] \<longrightarrow> 1 \<le> int (length pep)"
    by (cases pep) simp_all
  with i m show ?thesis
    by (auto simp: occurrence_at_def)
qed

theorem position_bounds_witness:
  "\<lparr>start = 2, endp = 4, mutations = 0, sequence = ''KVL''\<rparr>
      \<in> set (find_peptide_positions ''KVL'' ''MKVLATG'' 0) \<and>
   ''KVL'' \<noteq> [] \<and> (1::int) \<le> 2 \<and> (2::int) \<le> 4 \<and> (4::int) \<le> int (length ''MKVLATG'') \<and>
   (4::int) - 2 + 1 = int (length ''KVL'')"
proof -
  have h: "\<lparr>start = 2, endp = 4, mutations = 0, sequence = ''KVL''\<rparr>
             \<in> set (find_peptide_positions ''KVL'' ''MKVLATG'' 0)"
    by code_simp
  from position_bounds [OF h] h show ?thesis by simp
qed

theorem position_bounds_counterexample:
  "\<lparr>start = 1, endp = 0, mutations = 0, sequence = ''''\<rparr>
      \<in> set (find_peptide_positions '''' ''A'' 0) \<and>
   \<not> start \<lparr>start = 1, endp = 0, mutations = 0, sequence = ''''\<rparr>
       \<le> endp \<lparr>start = 1, endp = 0, mutations = 0, sequence = ''''\<rparr>"
  by code_simp

text \<open>
  C8. A peptide longer than the protein has no occurrence, and the function returns
  the empty list, not an error; the aggregate of such a peptide alone is empty. An
  empty peptide collection aggregates to the empty list, and the protein is then
  passed over without a plot and without an error.
\<close>

theorem longer_peptide_no_occurrence:
  assumes "length P < length pep"
  shows "find_peptide_positions pep P b = [] \<and> all_matches [pep] P b = [] \<and>
         all_matches [] P b = [] \<and> process_protein [] P b = Inr None"
  using assms by (simp add: find_peptide_positions_def all_matches_def process_protein_def)

theorem longer_peptide_no_occurrence_witness:
  "length ''MKVLA'' < length ''MKVLATGMKV'' \<and>
   find_peptide_positions ''MKVLATGMKV'' ''MKVLA'' 0 = [] \<and>
   all_matches [''MKVLATGMKV''] ''MKVLA'' 0 = [] \<and> all_matches [] ''MKVLA'' 0 = [] \<and>
   process_protein [] ''MKVLA'' 0 = Inr None"
proof -
  have h: "length ''MKVLA'' < length ''MKVLATGMKV''" by simp
  from longer_peptide_no_occurrence [OF h, of 0] h show ?thesis by simp
qed

text \<open>
  C10. For the empty peptide and a budget \<open>b \<ge> 0\<close> the function returns
  \<open>length P + 1\<close> occurrences, one for each offset \<open>i\<close> from 0 to \<open>length P\<close>, in
  this order, with no mutation, the empty sequence, \<open>start = i + 1\<close> and \<open>end = i\<close>,
  so that \<open>end = start - 1\<close>.
\<close>

theorem empty_peptide_occurrences:
  assumes "0 \<le> b"
  shows "find_peptide_positions [] P b =
           map (\<lambda>i. \<lparr>start = int i + 1, endp = int i, mutations = 0, sequence = []\<rparr>)
             [0 ..< length P + 1] \<and>
         length (find_peptide_positions [] P b) = length P + 1"
  using assms
  by (simp add: find_peptide_positions_eq occurrence_at_def window_def del: upt_Suc)

theorem empty_peptide_occurrences_witness:
  "(0::int) \<le> 0 \<and>
   find_peptide_positions [] ''AB'' 0 =
     [\<lparr>start = 1, endp = 0, mutations = 0, sequence = []\<rparr>,
      \<lparr>start = 2, endp = 1, mutations = 0, sequence = []\<rparr>,
      \<lparr>start = 3, endp = 2, mutations = 0, sequence = []\<rparr>] \<and>
   length (find_peptide_positions [] ''AB'' 0) = 3"
proof -
  have h: "(0::int) \<le> 0" by simp
  from empty_peptide_occurrences [OF h, of "''AB''"] show ?thesis
    by (simp add: upt_conv_Cons)
qed

section \<open>The row assignment\<close>

lemma first_fit_find:
  "first_fit g s ends rs = find (\<lambda>r. s > ends ! r + g) rs"
  by (induction rs) simp_all

lemma first_fit_upt_Some:
  assumes "first_fit g s ends [0 ..< n] = Some r"
  shows "r < n \<and> s > ends ! r + g \<and> (\<forall>q<r. \<not> s > ends ! q + g)"
proof -
  from assms obtain i where i: "i < length [0 ..< n]"
      and p: "s > ends ! ([0 ..< n] ! i) + g" and r: "r = [0 ..< n] ! i"
      and least: "\<forall>j<i. \<not> s > ends ! ([0 ..< n] ! j) + g"
    unfolding first_fit_find find_Some_iff by blast
  from i have "i < n" by simp
  with r have ri: "r = i" by simp
  from least \<open>i < n\<close> have "\<forall>j<i. \<not> s > ends ! j + g" by simp
  with ri \<open>i < n\<close> p show ?thesis by simp
qed

lemma first_fit_upt_None:
  assumes "first_fit g s ends [0 ..< n] = None"
  shows "\<forall>q<n. \<not> s > ends ! q + g"
  using assms unfolding first_fit_find find_None_iff by simp

text \<open>
  The fold of \<open>py_min\<close> returns the element at the first index at which the key is
  least: no key is smaller, and every key before it is larger.
\<close>

lemma foldl_min_first:
  fixes key :: "nat \<Rightarrow> int"
  defines "step \<equiv> (\<lambda>best i. if key i < key best then i else best)"
  shows "\<exists>k<length (x # xs). foldl step x xs = (x # xs) ! k \<and>
           (\<forall>j<length (x # xs). key ((x # xs) ! k) \<le> key ((x # xs) ! j)) \<and>
           (\<forall>j<k. key ((x # xs) ! k) < key ((x # xs) ! j))"
proof (induction xs rule: rev_induct)
  case Nil
  show ?case by simp
next
  case (snoc y xs)
  then obtain k where k: "k < length (x # xs)"
      and b: "foldl step x xs = (x # xs) ! k"
      and le: "\<forall>j<length (x # xs). key ((x # xs) ! k) \<le> key ((x # xs) ! j)"
      and lt: "\<forall>j<k. key ((x # xs) ! k) < key ((x # xs) ! j)"
    by blast
  let ?zs = "x # xs @ [y]"
  have nth_old: "\<And>j. j < length (x # xs) \<Longrightarrow> ?zs ! j = (x # xs) ! j"
    by (metis append_Cons nth_append)
  have nth_new: "?zs ! length (x # xs) = y"
    by (metis append_Cons nth_append_length)
  show ?case
  proof (cases "key y < key ((x # xs) ! k)")
    case True
    with b have f: "foldl step x (xs @ [y]) = y"
      unfolding step_def by simp
    have "\<forall>j<length ?zs. key y \<le> key (?zs ! j)"
    proof (intro allI impI)
      fix j assume "j < length ?zs"
      then consider "j < length (x # xs)" | "j = length (x # xs)" by fastforce
      then show "key y \<le> key (?zs ! j)"
      proof cases
        case 1
        with le True nth_old [of j] show ?thesis by force
      next
        case 2
        with nth_new show ?thesis by simp
      qed
    qed
    moreover have "\<forall>j<length (x # xs). key y < key (?zs ! j)"
    proof (intro allI impI)
      fix j assume j: "j < length (x # xs)"
      with le True nth_old [of j] show "key y < key (?zs ! j)" by force
    qed
    ultimately show ?thesis
      using f nth_new by (intro exI [of _ "length (x # xs)"]) simp
  next
    case False
    with b have f: "foldl step x (xs @ [y]) = (x # xs) ! k"
      unfolding step_def by simp
    have "\<forall>j<length ?zs. key ((x # xs) ! k) \<le> key (?zs ! j)"
    proof (intro allI impI)
      fix j assume "j < length ?zs"
      then consider "j < length (x # xs)" | "j = length (x # xs)" by fastforce
      then show "key ((x # xs) ! k) \<le> key (?zs ! j)"
      proof cases
        case 1
        with le nth_old [of j] show ?thesis by force
      next
        case 2
        with nth_new False show ?thesis by simp
      qed
    qed
    moreover have "\<forall>j<k. key ((x # xs) ! k) < key (?zs ! j)"
    proof (intro allI impI)
      fix j assume "j < k"
      with k lt nth_old [of j] show "key ((x # xs) ! k) < key (?zs ! j)" by force
    qed
    moreover from k have "k < length ?zs" by simp
    ultimately show ?thesis
      using f nth_old [OF k] by (intro exI [of _ k]) simp
  qed
qed

lemma py_min_upt:
  assumes "0 < n"
  shows "\<exists>b<n. py_min key [0 ..< n] = Some b \<and> (\<forall>q<n. key b \<le> key q) \<and>
           (\<forall>q<b. key b < key q)"
proof -
  from assms have u: "[0 ..< n] = 0 # [1 ..< n]"
    by (simp add: upt_conv_Cons)
  from foldl_min_first [of 0 "[1 ..< n]" key]
  obtain k where k: "k < length (0 # [1 ..< n])"
      and b: "foldl (\<lambda>best i. if key i < key best then i else best) 0 [1 ..< n] = (0 # [1 ..< n]) ! k"
      and le: "\<forall>j<length (0 # [1 ..< n]). key ((0 # [1 ..< n]) ! k) \<le> key ((0 # [1 ..< n]) ! j)"
      and lt: "\<forall>j<k. key ((0 # [1 ..< n]) ! k) < key ((0 # [1 ..< n]) ! j)"
    by blast
  from k u have kn: "k < n" by (metis length_upt minus_nat.diff_0)
  have nth: "\<And>j. j < n \<Longrightarrow> (0 # [1 ..< n]) ! j = j"
    by (metis u nth_upt add_0)
  from b have "py_min key [0 ..< n] = Some ((0 # [1 ..< n]) ! k)"
    by (simp add: u)
  with kn nth have 1: "py_min key [0 ..< n] = Some k" by simp
  from le u have "\<forall>j<n. key ((0 # [1 ..< n]) ! k) \<le> key ((0 # [1 ..< n]) ! j)"
    by (metis length_upt minus_nat.diff_0)
  with kn nth have 2: "\<forall>q<n. key k \<le> key q" by simp
  from lt kn nth have 3: "\<forall>q<k. key k < key q" by simp
  from kn 1 2 3 show ?thesis by blast
qed

lemma mset_concat_update:
  "r < length xss \<Longrightarrow> mset (concat (xss[r := xss ! r @ [m]])) = add_mset m (mset (concat xss))"
proof (induction xss arbitrary: r)
  case Nil
  then show ?case by simp
next
  case (Cons xs xss)
  then show ?case by (cases r) simp_all
qed

text \<open>
  One pass of the loop body with at least one row: the match is placed in a row, by
  the gap rule or, when no row passes it, in the first row whose end is least.
\<close>

lemma assign_match_cases:
  assumes "0 < max_rows"
  shows "\<exists>r<nat max_rows. \<exists>e. assign_match max_rows min_gap st m = Inr (placed st r m e) \<and>
           (start m - 1 > row_end_positions st ! r + min_gap \<and>
            (\<forall>q<r. \<not> start m - 1 > row_end_positions st ! q + min_gap) \<and>
            e = endp m - 1
            \<or>
            (\<forall>q<nat max_rows. \<not> start m - 1 > row_end_positions st ! q + min_gap) \<and>
            (\<forall>q<nat max_rows. row_end_positions st ! r \<le> row_end_positions st ! q) \<and>
            (\<forall>q<r. row_end_positions st ! r < row_end_positions st ! q) \<and>
            e = max (row_end_positions st ! r) (endp m - 1))"
proof (cases "first_fit min_gap (start m - 1) (row_end_positions st) [0 ..< nat max_rows]")
  case (Some r)
  from first_fit_upt_Some [OF Some]
  have r: "r < nat max_rows" and fit: "start m - 1 > row_end_positions st ! r + min_gap"
      and least: "\<forall>q<r. \<not> start m - 1 > row_end_positions st ! q + min_gap"
    by simp_all
  from Some have "assign_match max_rows min_gap st m = Inr (placed st r m (endp m - 1))"
    by (simp add: assign_match_def placed_def)
  with r fit least show ?thesis by blast
next
  case None
  from first_fit_upt_None [OF None]
  have nofit: "\<forall>q<nat max_rows. \<not> start m - 1 > row_end_positions st ! q + min_gap" .
  from assms have "0 < nat max_rows" by simp
  from py_min_upt [OF this, of "\<lambda>i. row_end_positions st ! i"]
  obtain b where b: "b < nat max_rows"
      and pm: "py_min (\<lambda>i. row_end_positions st ! i) [0 ..< nat max_rows] = Some b"
      and le: "\<forall>q<nat max_rows. row_end_positions st ! b \<le> row_end_positions st ! q"
      and lt: "\<forall>q<b. row_end_positions st ! b < row_end_positions st ! q"
    by blast
  from None pm have "assign_match max_rows min_gap st m =
      Inr (placed st b m (max (row_end_positions st ! b) (endp m - 1)))"
    by (simp add: assign_match_def placed_def)
  with b nofit le lt show ?thesis by blast
qed

lemma placed_invariant:
  assumes "r < length (rows st)"
  shows "length (rows (placed st r m e)) = length (rows st) \<and>
         length (row_end_positions (placed st r m e)) = length (row_end_positions st) \<and>
         mset (concat (rows (placed st r m e))) = add_mset m (mset (concat (rows st)))"
  using assms by (simp add: placed_def mset_concat_update)

lemma assign_match_lengths:
  assumes "0 < max_rows" and "length (rows st) = nat max_rows"
  shows "\<exists>st'. assign_match max_rows min_gap st m = Inr st' \<and>
           length (rows st') = length (rows st) \<and>
           length (row_end_positions st') = length (row_end_positions st) \<and>
           mset (concat (rows st')) = add_mset m (mset (concat (rows st)))"
proof -
  from assign_match_cases [OF assms(1), of min_gap st m]
  obtain r e where r: "r < nat max_rows"
      and a: "assign_match max_rows min_gap st m = Inr (placed st r m e)"
    by blast
  from r assms(2) have "r < length (rows st)" by simp
  from placed_invariant [OF this, of m e] a show ?thesis by simp
qed

lemma assign_loop_invariant:
  assumes "0 < max_rows" and "length (rows st) = nat max_rows"
  shows "\<exists>st'. assign_loop max_rows min_gap st ms = Inr st' \<and>
           length (rows st') = length (rows st) \<and>
           length (row_end_positions st') = length (row_end_positions st) \<and>
           mset (concat (rows st')) = mset ms + mset (concat (rows st))"
  using assms(2)
proof (induction ms arbitrary: st)
  case Nil
  show ?case by simp
next
  case (Cons m ms)
  from assign_match_lengths [OF assms(1) Cons.prems, of min_gap m]
  obtain st1 where a: "assign_match max_rows min_gap st m = Inr st1"
      and l1: "length (rows st1) = length (rows st)"
      and l2: "length (row_end_positions st1) = length (row_end_positions st)"
      and ms1: "mset (concat (rows st1)) = add_mset m (mset (concat (rows st)))"
    by blast
  from l1 Cons.prems have "length (rows st1) = nat max_rows" by simp
  from Cons.IH [OF this]
  obtain st' where b: "assign_loop max_rows min_gap st1 ms = Inr st'"
      and k1: "length (rows st') = length (rows st1)"
      and k2: "length (row_end_positions st') = length (row_end_positions st1)"
      and ms2: "mset (concat (rows st')) = mset ms + mset (concat (rows st1))"
    by blast
  from a b have "assign_loop max_rows min_gap st (m # ms) = Inr st'" by simp
  with l1 l2 k1 k2 ms1 ms2 show ?case by simp
qed

lemma assign_loop_snoc:
  "assign_loop max_rows min_gap st (ms @ [m]) =
     (case assign_loop max_rows min_gap st ms of
        Inl e \<Rightarrow> Inl e
      | Inr st' \<Rightarrow> assign_match max_rows min_gap st' m)"
  by (induction ms arbitrary: st) (simp_all split: sum.splits)

lemma assign_rows_total:
  assumes "0 < max_rows"
  shows "\<exists>st. assign_rows max_rows min_gap ms = Inr st \<and>
           length (rows st) = nat max_rows \<and>
           length (row_end_positions st) = nat max_rows \<and>
           mset (concat (rows st)) = mset ms"
proof -
  let ?st0 = "\<lparr>rows = replicate (nat max_rows) [], row_end_positions = replicate (nat max_rows) 0\<rparr>"
  have "length (rows ?st0) = nat max_rows" by simp
  from assign_loop_invariant [OF assms this, of min_gap ms]
  show ?thesis by (simp add: assign_rows_def)
qed

lemma sorted_matches_sorted:
  "sorted_wrt (\<lambda>a b. start a < start b \<or> (start a = start b \<and> endp a - start a \<le> endp b - start b))
     (sorted_matches xs)"
proof -
  have "sorted (map (\<lambda>x. (start x, endp x - start x)) (sorted_matches xs))"
    unfolding sorted_matches_def by (rule sorted_sort_key)
  then have "sorted_wrt (\<lambda>a b. (start a, endp a - start a) \<le> (start b, endp b - start b))
               (sorted_matches xs)"
    by (simp add: sorted_wrt_map)
  then show ?thesis
    by (rule sorted_wrt_mono_rel [rotated]) (auto simp: less_eq_prod_def)
qed

section \<open>Claims about aggregation and row assignment\<close>

text \<open>
  C3, as the code has it. With at least one row, the loop goes through every list
  \<open>ms\<close> of occurrences without error and keeps \<open>max_rows\<close> rows and row ends. The
  occurrence \<open>m\<close> that follows \<open>ms\<close> is appended to one row \<open>r\<close>: either \<open>r\<close> is the
  first row with \<open>start - 1 > row_end_positions[r] + min_gap\<close>, and its end becomes
  \<open>end - 1\<close>; or no row passes this test, \<open>r\<close> is the first row among those with
  the least end, and its end becomes the greater of its old end and \<open>end - 1\<close>.
  With two rows and a gap of 10, three occurrences that start at 1, 2 and 50 go to
  rows 0, 1 and 0 when the first of them ends at a position from 2 to 39. The
  counterexample has a first occurrence that ends at 1: both row ends are then still
  0 when the second occurrence arrives, and it goes to row 0.
\<close>

theorem row_assignment:
  "(0 < max_rows \<longrightarrow>
      (\<exists>st. assign_rows max_rows min_gap ms = Inr st \<and>
         length (rows st) = nat max_rows \<and> length (row_end_positions st) = nat max_rows \<and>
         (\<exists>r<nat max_rows. \<exists>e.
            assign_rows max_rows min_gap (ms @ [m]) =
              Inr \<lparr>rows = (rows st)[r := rows st ! r @ [m]],
                   row_end_positions = (row_end_positions st)[r := e]\<rparr> \<and>
            (start m - 1 > row_end_positions st ! r + min_gap \<and>
             (\<forall>q<r. \<not> start m - 1 > row_end_positions st ! q + min_gap) \<and>
             e = endp m - 1
             \<or>
             (\<forall>q<nat max_rows. \<not> start m - 1 > row_end_positions st ! q + min_gap) \<and>
             (\<forall>q<nat max_rows. row_end_positions st ! r \<le> row_end_positions st ! q) \<and>
             (\<forall>q<r. row_end_positions st ! r < row_end_positions st ! q) \<and>
             e = max (row_end_positions st ! r) (endp m - 1))))) \<and>
   (start m1 = 1 \<and> start m2 = 2 \<and> start m3 = 50 \<and> 2 \<le> endp m1 \<and> endp m1 \<le> 39 \<longrightarrow>
      create_plot_rows [m1, m2, m3] =
        Inr \<lparr>rows = [[m1, m3], [m2]],
             row_end_positions = [endp m3 - 1, max 0 (endp m2 - 1)]\<rparr>)"
proof (intro conjI impI)
  assume pos: "0 < max_rows"
  from assign_rows_total [OF pos, of min_gap ms]
  obtain st where st: "assign_rows max_rows min_gap ms = Inr st"
      and l1: "length (rows st) = nat max_rows"
      and l2: "length (row_end_positions st) = nat max_rows"
    by blast
  from st have "assign_rows max_rows min_gap (ms @ [m]) = assign_match max_rows min_gap st m"
    by (simp add: assign_rows_def assign_loop_snoc)
  with assign_match_cases [OF pos, of min_gap st m] st l1 l2
  show "\<exists>st. assign_rows max_rows min_gap ms = Inr st \<and>
         length (rows st) = nat max_rows \<and> length (row_end_positions st) = nat max_rows \<and>
         (\<exists>r<nat max_rows. \<exists>e.
            assign_rows max_rows min_gap (ms @ [m]) =
              Inr \<lparr>rows = (rows st)[r := rows st ! r @ [m]],
                   row_end_positions = (row_end_positions st)[r := e]\<rparr> \<and>
            (start m - 1 > row_end_positions st ! r + min_gap \<and>
             (\<forall>q<r. \<not> start m - 1 > row_end_positions st ! q + min_gap) \<and>
             e = endp m - 1
             \<or>
             (\<forall>q<nat max_rows. \<not> start m - 1 > row_end_positions st ! q + min_gap) \<and>
             (\<forall>q<nat max_rows. row_end_positions st ! r \<le> row_end_positions st ! q) \<and>
             (\<forall>q<r. row_end_positions st ! r < row_end_positions st ! q) \<and>
             e = max (row_end_positions st ! r) (endp m - 1)))"
    unfolding placed_def by auto
next
  assume h: "start m1 = 1 \<and> start m2 = 2 \<and> start m3 = 50 \<and> 2 \<le> endp m1 \<and> endp m1 \<le> 39"
  have u: "[0 ..< 2] = [0, Suc 0]"
    by (simp add: numeral_2_eq_2)
  have init: "\<lparr>rows = replicate (nat 2) [], row_end_positions = replicate (nat 2) 0\<rparr> =
      \<lparr>rows = [[], []], row_end_positions = [0, 0]\<rparr>"
    by (simp add: numeral_2_eq_2)
  from h have s: "sorted_matches [m1, m2, m3] = [m1, m2, m3]"
    by (simp add: sorted_matches_def)
  from h have a1: "assign_match 2 10 \<lparr>rows = [[], []], row_end_positions = [0, 0]\<rparr> m1 =
      Inr \<lparr>rows = [[m1], []], row_end_positions = [endp m1 - 1, 0]\<rparr>"
    by (simp add: assign_match_def u)
  from h have a2: "assign_match 2 10 \<lparr>rows = [[m1], []], row_end_positions = [endp m1 - 1, 0]\<rparr> m2 =
      Inr \<lparr>rows = [[m1], [m2]], row_end_positions = [endp m1 - 1, max 0 (endp m2 - 1)]\<rparr>"
    by (simp add: assign_match_def u)
  from h have a3: "assign_match 2 10
        \<lparr>rows = [[m1], [m2]], row_end_positions = [endp m1 - 1, max 0 (endp m2 - 1)]\<rparr> m3 =
      Inr \<lparr>rows = [[m1, m3], [m2]], row_end_positions = [endp m3 - 1, max 0 (endp m2 - 1)]\<rparr>"
    by (simp add: assign_match_def u)
  show "create_plot_rows [m1, m2, m3] =
        Inr \<lparr>rows = [[m1, m3], [m2]],
             row_end_positions = [endp m3 - 1, max 0 (endp m2 - 1)]\<rparr>"
    by (simp only: create_plot_rows_def s assign_rows_def init assign_loop.simps a1 a2 a3 sum.case)
qed

theorem row_assignment_witness:
  "(0::int) < 2 \<and>
   assign_rows 2 10 [\<lparr>start = 1, endp = 3, mutations = 0, sequence = ''MKV'', peptide = ''MKV''\<rparr>] =
     Inr \<lparr>rows = [[\<lparr>start = 1, endp = 3, mutations = 0, sequence = ''MKV'', peptide = ''MKV''\<rparr>], []],
          row_end_positions = [2, 0]\<rparr> \<and>
   create_plot_rows
     [\<lparr>start = 1, endp = 3, mutations = 0, sequence = ''MKV'', peptide = ''MKV''\<rparr>,
      \<lparr>start = 2, endp = 4, mutations = 0, sequence = ''KVL'', peptide = ''KVL''\<rparr>,
      \<lparr>start = 50, endp = 52, mutations = 0, sequence = ''ATG'', peptide = ''ATG''\<rparr>] =
   Inr \<lparr>rows = [[\<lparr>start = 1, endp = 3, mutations = 0, sequence = ''MKV'', peptide = ''MKV''\<rparr>,
                \<lparr>start = 50, endp = 52, mutations = 0, sequence = ''ATG'', peptide = ''ATG''\<rparr>],
               [\<lparr>start = 2, endp = 4, mutations = 0, sequence = ''KVL'', peptide = ''KVL''\<rparr>]],
        row_end_positions = [51, 3]\<rparr>"
proof -
  have e: "assign_rows 2 10
             [\<lparr>start = 1, endp = 3, mutations = 0, sequence = ''MKV'', peptide = ''MKV''\<rparr>] =
     Inr \<lparr>rows = [[\<lparr>start = 1, endp = 3, mutations = 0, sequence = ''MKV'', peptide = ''MKV''\<rparr>], []],
          row_end_positions = [2, 0]\<rparr>"
    by code_simp
  from row_assignment [of 2 10 "[]"
      "\<lparr>start = 1, endp = 3, mutations = 0, sequence = ''MKV'', peptide = ''MKV''\<rparr>"
      "\<lparr>start = 1, endp = 3, mutations = 0, sequence = ''MKV'', peptide = ''MKV''\<rparr>"
      "\<lparr>start = 2, endp = 4, mutations = 0, sequence = ''KVL'', peptide = ''KVL''\<rparr>"
      "\<lparr>start = 50, endp = 52, mutations = 0, sequence = ''ATG'', peptide = ''ATG''\<rparr>"] e
  show ?thesis by simp
qed

theorem row_assignment_counterexample:
  "create_plot_rows
     [\<lparr>start = 1, endp = 1, mutations = 0, sequence = ''M'', peptide = ''M''\<rparr>,
      \<lparr>start = 2, endp = 4, mutations = 0, sequence = ''KVL'', peptide = ''KVL''\<rparr>,
      \<lparr>start = 50, endp = 52, mutations = 0, sequence = ''ATG'', peptide = ''ATG''\<rparr>] =
   Inr \<lparr>rows = [[\<lparr>start = 1, endp = 1, mutations = 0, sequence = ''M'', peptide = ''M''\<rparr>,
                \<lparr>start = 2, endp = 4, mutations = 0, sequence = ''KVL'', peptide = ''KVL''\<rparr>,
                \<lparr>start = 50, endp = 52, mutations = 0, sequence = ''ATG'', peptide = ''ATG''\<rparr>],
               []],
        row_end_positions = [51, 0]\<rparr>"
  by code_simp

text \<open>
  C4. With at least one row, the loop finishes on every list of occurrences, with
  exactly \<open>max_rows\<close> rows, and the rows taken together hold each occurrence of the
  input as often as the input does: none is lost, none is added or placed twice.
\<close>

theorem packing_complete:
  assumes "0 < max_rows"
  shows "\<exists>st. assign_rows max_rows min_gap ms = Inr st \<and>
           length (rows st) = nat max_rows \<and>
           mset (concat (rows st)) = mset ms"
  using assign_rows_total [OF assms, of min_gap ms] by blast

theorem packing_complete_witness:
  "(0::int) < 2 \<and>
   assign_rows 2 10
     [\<lparr>start = 1, endp = 2, mutations = 0, sequence = ''AA'', peptide = ''AA''\<rparr>,
      \<lparr>start = 2, endp = 3, mutations = 0, sequence = ''AA'', peptide = ''AA''\<rparr>,
      \<lparr>start = 3, endp = 4, mutations = 0, sequence = ''AA'', peptide = ''AA''\<rparr>] =
   Inr \<lparr>rows = [[\<lparr>start = 1, endp = 2, mutations = 0, sequence = ''AA'', peptide = ''AA''\<rparr>,
                \<lparr>start = 3, endp = 4, mutations = 0, sequence = ''AA'', peptide = ''AA''\<rparr>],
               [\<lparr>start = 2, endp = 3, mutations = 0, sequence = ''AA'', peptide = ''AA''\<rparr>]],
        row_end_positions = [3, 2]\<rparr>"
proof -
  have h: "(0::int) < 2" by simp
  have e: "assign_rows 2 10
     [\<lparr>start = 1, endp = 2, mutations = 0, sequence = ''AA'', peptide = ''AA''\<rparr>,
      \<lparr>start = 2, endp = 3, mutations = 0, sequence = ''AA'', peptide = ''AA''\<rparr>,
      \<lparr>start = 3, endp = 4, mutations = 0, sequence = ''AA'', peptide = ''AA''\<rparr>] =
   Inr \<lparr>rows = [[\<lparr>start = 1, endp = 2, mutations = 0, sequence = ''AA'', peptide = ''AA''\<rparr>,
                \<lparr>start = 3, endp = 4, mutations = 0, sequence = ''AA'', peptide = ''AA''\<rparr>],
               [\<lparr>start = 2, endp = 3, mutations = 0, sequence = ''AA'', peptide = ''AA''\<rparr>]],
        row_end_positions = [3, 2]\<rparr>"
    by code_simp
  from packing_complete [OF h, of 10
     "[\<lparr>start = 1, endp = 2, mutations = 0, sequence = ''AA'', peptide = ''AA''\<rparr>,
      \<lparr>start = 2, endp = 3, mutations = 0, sequence = ''AA'', peptide = ''AA''\<rparr>,
      \<lparr>start = 3, endp = 4, mutations = 0, sequence = ''AA'', peptide = ''AA''\<rparr>]"] h e
  show ?thesis by simp
qed

text \<open>
  C5. The list the row assignment goes through, \<open>sorted_matches\<close> of the matches
  that \<^verbatim>\<open>main\<close> collected, is ordered by start, and at equal start by
  \<open>end - start\<close>, both ascending; it holds the tagged occurrences of all the peptides,
  each as often as the matcher returned it.
\<close>

theorem aggregate_sorted:
  "sorted_wrt (\<lambda>a b. start a < start b \<or> (start a = start b \<and> endp a - start a \<le> endp b - start b))
     (sorted_matches (all_matches peps P b)) \<and>
   mset (sorted_matches (all_matches peps P b)) =
     mset (concat (map (\<lambda>pep. map (tag_match pep) (find_peptide_positions pep P b)) peps))"
proof
  show "sorted_wrt (\<lambda>a b. start a < start b \<or> (start a = start b \<and> endp a - start a \<le> endp b - start b))
     (sorted_matches (all_matches peps P b))"
    by (rule sorted_matches_sorted)
  show "mset (sorted_matches (all_matches peps P b)) =
     mset (concat (map (\<lambda>pep. map (tag_match pep) (find_peptide_positions pep P b)) peps))"
    by (simp add: sorted_matches_def all_matches_def collect_matches_eq)
qed

text \<open>
  C9, as the code has it. Neither parameter is checked and no configuration error
  exists. A negative budget is accepted: every peptide then has no occurrence, the
  aggregate is empty and the protein is passed over without a plot and without an
  error. The row count is not an input: \<^verbatim>\<open>create_plot\<close> sets it to 2, and its row
  assignment finishes without error on every list of matches. Run with a row count
  of zero or less, the loop returns no rows for an empty list and fails on the first
  occurrence of any other list, with the \<^verbatim>\<open>ValueError\<close> of \<^verbatim>\<open>min\<close>.
\<close>

theorem no_configuration_error:
  "(b < 0 \<longrightarrow>
      find_peptide_positions pep P b = [] \<and> all_matches peps P b = [] \<and>
      process_protein peps P b = Inr None) \<and>
   (\<exists>st. create_plot_rows ms = Inr st) \<and>
   (max_rows \<le> 0 \<longrightarrow>
      assign_rows max_rows min_gap [] = Inr \<lparr>rows = [], row_end_positions = []\<rparr> \<and>
      assign_rows max_rows min_gap (m # ms) = Inl ValueError)"
proof (intro conjI impI)
  assume neg: "b < 0"
  then show "find_peptide_positions pep P b = []"
    by (rule negative_budget_no_match)
  from neg have "\<And>q. find_peptide_positions q P b = []"
    by (rule negative_budget_no_match)
  then have c: "concat (map (\<lambda>q. map (tag_match q) (find_peptide_positions q P b)) peps) = []"
    by (simp add: concat_eq_Nil_conv)
  show am: "all_matches peps P b = []"
    unfolding all_matches_def collect_matches_eq c by simp
  from am show "process_protein peps P b = Inr None"
    by (simp add: process_protein_def)
next
  have "(0::int) < 2" by simp
  from assign_rows_total [OF this, of 10 "sorted_matches ms"]
  show "\<exists>st. create_plot_rows ms = Inr st"
    unfolding create_plot_rows_def by blast
next
  assume "max_rows \<le> 0"
  then show "assign_rows max_rows min_gap [] = Inr \<lparr>rows = [], row_end_positions = []\<rparr>"
    by (simp add: assign_rows_def)
next
  assume "max_rows \<le> 0"
  then show "assign_rows max_rows min_gap (m # ms) = Inl ValueError"
    by (simp add: assign_rows_def assign_match_def)
qed

theorem no_configuration_error_witness:
  "(- 1 :: int) < 0 \<and> (0::int) \<le> 0 \<and>
   find_peptide_positions ''A'' ''A'' (- 1) = [] \<and> all_matches [''A''] ''A'' (- 1) = [] \<and>
   process_protein [''A''] ''A'' (- 1) = Inr None \<and>
   assign_rows 0 10 [] = Inr \<lparr>rows = [], row_end_positions = []\<rparr> \<and>
   assign_rows 0 10 [\<lparr>start = 1, endp = 1, mutations = 0, sequence = ''A'', peptide = ''A''\<rparr>] =
     Inl ValueError"
  using no_configuration_error [of "- 1" "''A''" "''A''" "[''A'']" "[]" 0 10
      "\<lparr>start = 1, endp = 1, mutations = 0, sequence = ''A'', peptide = ''A''\<rparr>"]
  by simp

theorem no_configuration_error_counterexample:
  "find_peptide_positions ''KVL'' ''MKVLATG'' (- 1) = [] \<and>
   process_protein [''KVL''] ''MKVLATG'' (- 1) = Inr None \<and>
   assign_rows 0 10 [] = Inr \<lparr>rows = [], row_end_positions = []\<rparr>"
  by code_simp

end
